theory Spec2Isabelle
  imports Complex_Main "HOL-Library.Sublist"
begin

section \<open>The OpenAPI validator \<^verbatim>\<open>validate_openapi.py\<close>\<close>

text \<open>
  The script loads a JSON or YAML document, runs six check passes over the parsed tree,
  sorts the messages of the passes into errors and warnings by testing the text of each
  message, and exits with status 1 when there is an error.

  The passes are written against Python's dynamic values, and several claims are about
  what happens on a badly typed document, so the parsed tree is a datatype of Python
  values and every operation that can raise returns a sum: \<open>Inl\<close> the exception.
\<close>

subsection \<open>Python values\<close>

text \<open>
  What \<^verbatim>\<open>json.load\<close> and \<^verbatim>\<open>yaml.safe_load\<close> build from the core types: the
  null value, booleans, integers, floats, strings, lists and dictionaries. Dictionary
  keys are strings (always so in JSON); a dictionary is the list of its items in
  insertion order, which is the order in which Python iterates, and a parsed dictionary
  has no key twice. Strings are lists of 8-bit characters, read as ASCII text.
\<close>

datatype pyval =
    PNone
  | PBool bool
  | PInt int
  | PFloat real
  | PStr string
  | PList "pyval list"
  | PDict "(string \<times> pyval) list"

datatype py_error = TypeError | AttributeError | KeyError

type_synonym 'a result = "py_error + 'a"

definition bnd :: "'a result \<Rightarrow> ('a \<Rightarrow> 'b result) \<Rightarrow> 'b result" where
  "bnd r f = (case r of Inl e \<Rightarrow> Inl e | Inr v \<Rightarrow> f v)"

text \<open>The body of a \<^verbatim>\<open>for\<close> loop run on each element in turn; an exception ends the loop.\<close>

fun for_each :: "('a \<Rightarrow> 'b result) \<Rightarrow> 'a list \<Rightarrow> 'b list result" where
  "for_each body [] = Inr []"
| "for_each body (x # xs) =
     bnd (body x) (\<lambda>y. bnd (for_each body xs) (\<lambda>ys. Inr (y # ys)))"

subsection \<open>String operations\<close>

definition quoted :: "string \<Rightarrow> string" where
  "quoted s = [CHR 0x27] @ s @ [CHR 0x27]"

text \<open>\<^verbatim>\<open>sub in s\<close> on two strings.\<close>

fun str_contains :: "string \<Rightarrow> string \<Rightarrow> bool" where
  "str_contains [] sub = (sub = [])"
| "str_contains (c # cs) sub = (prefix sub (c # cs) \<or> str_contains cs sub)"

definition ascii_uppercase :: string where
  "ascii_uppercase = ''ABCDEFGHIJKLMNOPQRSTUVWXYZ''"

definition ascii_lowercase :: string where
  "ascii_lowercase = ''abcdefghijklmnopqrstuvwxyz''"

definition lower_char :: "char \<Rightarrow> char" where
  "lower_char c =
     (case map_of (zip ascii_uppercase ascii_lowercase) c of Some d \<Rightarrow> d | None \<Rightarrow> c)"

definition upper_char :: "char \<Rightarrow> char" where
  "upper_char c =
     (case map_of (zip ascii_lowercase ascii_uppercase) c of Some d \<Rightarrow> d | None \<Rightarrow> c)"

text \<open>
  \<^verbatim>\<open>str.lower\<close> and \<^verbatim>\<open>str.upper\<close> on ASCII text: the letters A to Z and a to z
  change, every other character stays. On characters outside ASCII Python does more; such
  text is outside this model.
\<close>

definition lower :: "string \<Rightarrow> string" where
  "lower s = map lower_char s"

definition upper :: "string \<Rightarrow> string" where
  "upper s = map upper_char s"

text \<open>\<^verbatim>\<open>s.split(sep)\<close> for a separator of one character: never an empty list.\<close>

fun py_split :: "char \<Rightarrow> string \<Rightarrow> string list" where
  "py_split sep [] = [[]]"
| "py_split sep (c # cs) =
     (if c = sep then [] # py_split sep cs
      else (case py_split sep cs of
              [] \<Rightarrow> [[c]]
            | part # parts \<Rightarrow> (c # part) # parts))"

text \<open>
  \<^verbatim>\<open>re.findall(r'\{([^}]+)\}', path)\<close>: scanning from the left, an opening brace
  followed by one or more characters other than a closing brace and then a closing
  brace is a match, the group is what stands between the braces, and the scan goes on
  after the closing brace; anywhere else the scan moves one character on.
\<close>

function findall_params :: "string \<Rightarrow> string list" where
  "findall_params [] = []"
| "findall_params (c # cs) =
     (if c = CHR ''{''
         \<and> takeWhile (\<lambda>x. x \<noteq> CHR ''}'') cs \<noteq> []
         \<and> dropWhile (\<lambda>x. x \<noteq> CHR ''}'') cs \<noteq> []
      then takeWhile (\<lambda>x. x \<noteq> CHR ''}'') cs
             # findall_params (tl (dropWhile (\<lambda>x. x \<noteq> CHR ''}'') cs))
      else findall_params cs)"
  by pat_completeness auto
termination
proof (relation "measure length")
  show "wf (measure length)" by simp
next
  fix c :: char and cs :: string
  have "length (dropWhile (\<lambda>x. x \<noteq> CHR ''}'') cs) \<le> length cs"
    by (rule length_dropWhile_le)
  then show "(tl (dropWhile (\<lambda>x. x \<noteq> CHR ''}'') cs), c # cs) \<in> measure length"
    by simp
next
  fix c :: char and cs :: string
  show "(cs, c # cs) \<in> measure length" by simp
qed

subsection \<open>Operations on Python values\<close>

text \<open>\<^verbatim>\<open>not v\<close> is the negation of this.\<close>

fun truthy :: "pyval \<Rightarrow> bool" where
  "truthy PNone = False"
| "truthy (PBool b) = b"
| "truthy (PInt i) = (i \<noteq> 0)"
| "truthy (PFloat r) = (r \<noteq> 0)"
| "truthy (PStr s) = (s \<noteq> [])"
| "truthy (PList xs) = (xs \<noteq> [])"
| "truthy (PDict d) = (d \<noteq> [])"

text \<open>
  \<^verbatim>\<open>k in v\<close> for a string \<open>k\<close>: a key of a dictionary, an element of a list, a
  substring of a string; the other values are not iterable.
\<close>

fun py_in :: "string \<Rightarrow> pyval \<Rightarrow> bool result" where
  "py_in k (PDict d) = Inr (k \<in> set (map fst d))"
| "py_in k (PList xs) = Inr (PStr k \<in> set xs)"
| "py_in k (PStr s) = Inr (str_contains s k)"
| "py_in k PNone = Inl TypeError"
| "py_in k (PBool b) = Inl TypeError"
| "py_in k (PInt i) = Inl TypeError"
| "py_in k (PFloat r) = Inl TypeError"

text \<open>\<^verbatim>\<open>v[k]\<close> for a string \<open>k\<close>: only a dictionary can be indexed by a string.\<close>

fun py_getitem :: "pyval \<Rightarrow> string \<Rightarrow> pyval result" where
  "py_getitem (PDict d) k = (case map_of d k of None \<Rightarrow> Inl KeyError | Some v \<Rightarrow> Inr v)"
| "py_getitem PNone k = Inl TypeError"
| "py_getitem (PBool b) k = Inl TypeError"
| "py_getitem (PInt i) k = Inl TypeError"
| "py_getitem (PFloat r) k = Inl TypeError"
| "py_getitem (PStr s) k = Inl TypeError"
| "py_getitem (PList xs) k = Inl TypeError"

text \<open>\<^verbatim>\<open>v.get(k, default)\<close>, \<^verbatim>\<open>v.items()\<close> and \<^verbatim>\<open>v.keys()\<close>: methods of dictionaries only.\<close>

fun py_get :: "pyval \<Rightarrow> string \<Rightarrow> pyval \<Rightarrow> pyval result" where
  "py_get (PDict d) k dflt = Inr (case map_of d k of None \<Rightarrow> dflt | Some v \<Rightarrow> v)"
| "py_get PNone k dflt = Inl AttributeError"
| "py_get (PBool b) k dflt = Inl AttributeError"
| "py_get (PInt i) k dflt = Inl AttributeError"
| "py_get (PFloat r) k dflt = Inl AttributeError"
| "py_get (PStr s) k dflt = Inl AttributeError"
| "py_get (PList xs) k dflt = Inl AttributeError"

fun py_items :: "pyval \<Rightarrow> (string \<times> pyval) list result" where
  "py_items (PDict d) = Inr d"
| "py_items PNone = Inl AttributeError"
| "py_items (PBool b) = Inl AttributeError"
| "py_items (PInt i) = Inl AttributeError"
| "py_items (PFloat r) = Inl AttributeError"
| "py_items (PStr s) = Inl AttributeError"
| "py_items (PList xs) = Inl AttributeError"

definition py_keys :: "pyval \<Rightarrow> string list result" where
  "py_keys v = bnd (py_items v) (\<lambda>items. Inr (map fst items))"

text \<open>
  \<^verbatim>\<open>any(k in v for k in ks)\<close> and the chain
  \<^verbatim>\<open>k1 not in v and k2 not in v and ...\<close>: both stop at the first key found.
\<close>

fun any_in :: "string list \<Rightarrow> pyval \<Rightarrow> bool result" where
  "any_in [] v = Inr False"
| "any_in (k # ks) v = bnd (py_in k v) (\<lambda>found. if found then Inr True else any_in ks v)"

fun none_in :: "string list \<Rightarrow> pyval \<Rightarrow> bool result" where
  "none_in [] v = Inr True"
| "none_in (k # ks) v = bnd (py_in k v) (\<lambda>found. if found then Inr False else none_in ks v)"

subsection \<open>\<^verbatim>\<open>validate_structure\<close>\<close>

text \<open>
  The version test is \<^verbatim>\<open>spec['openapi'].startswith('3.0')\<close>: only a string has the
  method, and the message formats the same value.
\<close>

definition check_version :: "pyval \<Rightarrow> string list result" where
  "check_version v =
     (case v of
        PStr s \<Rightarrow> Inr (if \<not> prefix ''3.0'' s then [''Unsupported OpenAPI version: '' @ s] else [])
      | _ \<Rightarrow> Inl AttributeError)"

text \<open>The three independent blocks of the function, in the order of the source.\<close>

definition check_openapi_field :: "pyval \<Rightarrow> string list result" where
  "check_openapi_field spec =
     bnd (py_in ''openapi'' spec) (\<lambda>has_openapi.
     if \<not> has_openapi then Inr [''Missing required field: '' @ quoted ''openapi'']
     else bnd (py_getitem spec ''openapi'') check_version)"

definition check_info_field :: "pyval \<Rightarrow> string list result" where
  "check_info_field spec =
     bnd (py_in ''info'' spec) (\<lambda>has_info.
     if \<not> has_info then Inr [''Missing required field: '' @ quoted ''info'']
     else
       bnd (py_getitem spec ''info'') (\<lambda>info.
       bnd (py_in ''title'' info) (\<lambda>has_title.
       bnd (py_in ''version'' info) (\<lambda>has_version.
       Inr ((if \<not> has_title
             then [''Missing required field: '' @ quoted ''info.title''] else [])
          @ (if \<not> has_version
             then [''Missing required field: '' @ quoted ''info.version''] else []))))))"

definition check_paths_field :: "pyval \<Rightarrow> string list result" where
  "check_paths_field spec =
     bnd (py_in ''paths'' spec) (\<lambda>has_paths.
     if \<not> has_paths then Inr [''Missing required field: '' @ quoted ''paths'']
     else
       bnd (py_getitem spec ''paths'') (\<lambda>paths.
       Inr (if \<not> truthy paths
            then [quoted ''paths'' @ '' object is empty - at least one path is required'']
            else [])))"

definition validate_structure :: "pyval \<Rightarrow> string list result" where
  "validate_structure spec =
     bnd (check_openapi_field spec) (\<lambda>openapi_errors.
     bnd (check_info_field spec) (\<lambda>info_errors.
     bnd (check_paths_field spec) (\<lambda>paths_errors.
     Inr (openapi_errors @ info_errors @ paths_errors))))"

subsection \<open>\<^verbatim>\<open>validate_paths\<close>\<close>

definition operations :: "string list" where
  "operations = [''get'', ''post'', ''put'', ''patch'', ''delete'', ''options'', ''head'']"

text \<open>
  The body of the loop over the methods, for one method: the errors and the warnings
  it appends. The loops only append to the two lists, so each body is modelled by
  what it appends.
\<close>

definition check_responses :: "string \<Rightarrow> string \<Rightarrow> pyval \<Rightarrow> string list result" where
  "check_responses method path operation =
     bnd (py_in ''responses'' operation) (\<lambda>has_responses.
     if \<not> has_responses
     then Inr [upper method @ '' '' @ path @ '': Missing '' @ quoted ''responses'']
     else
       bnd (py_getitem operation ''responses'') (\<lambda>responses.
       Inr (if \<not> truthy responses
            then [upper method @ '' '' @ path @ '': '' @ quoted ''responses'' @ '' is empty'']
            else [])))"

definition check_documentation :: "string \<Rightarrow> string \<Rightarrow> pyval \<Rightarrow> string list result" where
  "check_documentation method path operation =
     bnd (py_in ''summary'' operation) (\<lambda>has_summary.
     bnd (if has_summary then Inr False
          else bnd (py_in ''description'' operation) (\<lambda>has_description.
               Inr (\<not> has_description))) (\<lambda>undocumented.
     bnd (py_in ''operationId'' operation) (\<lambda>has_operation_id.
     Inr ((if undocumented
           then [upper method @ '' '' @ path @ '': Missing '' @ quoted ''summary''
                   @ '' or '' @ quoted ''description'']
           else [])
        @ (if \<not> has_operation_id
           then [upper method @ '' '' @ path @ '': Missing '' @ quoted ''operationId''
                   @ '' (recommended)'']
           else [])))))"

definition check_operation :: "string \<Rightarrow> pyval \<Rightarrow> string \<Rightarrow> (string list \<times> string list) result" where
  "check_operation path path_item method =
     bnd (py_in method path_item) (\<lambda>present.
     if \<not> present then Inr ([], [])
     else
       bnd (py_getitem path_item method) (\<lambda>operation.
       bnd (check_responses method path operation) (\<lambda>errors.
       bnd (check_documentation method path operation) (\<lambda>warnings.
       Inr (errors, warnings)))))"

definition check_path :: "string \<times> pyval \<Rightarrow> (string list \<times> string list) result" where
  "check_path item =
     (case item of (path, path_item) \<Rightarrow>
        bnd (any_in operations path_item) (\<lambda>has_operation.
        bnd (for_each (check_operation path path_item) operations) (\<lambda>found.
        Inr ((if \<not> prefix ''/'' path
              then [''Path '' @ quoted path @ '' must start with '' @ quoted ''/''] else [])
               @ concat (map fst found),
             (if \<not> has_operation
              then [''Path '' @ quoted path @ '' has no operations defined''] else [])
               @ concat (map snd found)))))"

definition validate_paths :: "pyval \<Rightarrow> string list result" where
  "validate_paths spec =
     bnd (py_get spec ''paths'' (PDict [])) (\<lambda>paths.
     bnd (py_items paths) (\<lambda>items.
     bnd (for_each check_path items) (\<lambda>found.
     Inr (concat (map fst found) @ concat (map snd found)))))"

subsection \<open>\<^verbatim>\<open>validate_schemas\<close>\<close>

text \<open>The pass has an \<^verbatim>\<open>errors\<close> list that nothing is appended to.\<close>

definition check_object_schema :: "string \<Rightarrow> pyval \<Rightarrow> string list result" where
  "check_object_schema schema_name schema =
     bnd (py_get schema ''type'' PNone) (\<lambda>schema_type.
     if schema_type = PStr ''object''
     then bnd (py_in ''properties'' schema) (\<lambda>has_properties.
          Inr (if \<not> has_properties
               then [''Schema '' @ quoted schema_name @ '': Object type but no ''
                       @ quoted ''properties'' @ '' defined'']
               else []))
     else Inr [])"

definition check_schema :: "string \<times> pyval \<Rightarrow> string list result" where
  "check_schema item =
     (case item of (schema_name, schema) \<Rightarrow>
        bnd (none_in [''type'', ''$ref'', ''allOf'', ''oneOf'', ''anyOf''] schema) (\<lambda>untyped.
        bnd (py_in ''description'' schema) (\<lambda>has_description.
        bnd (check_object_schema schema_name schema) (\<lambda>object_warnings.
        Inr ((if untyped
              then [''Schema '' @ quoted schema_name @ '': Missing '' @ quoted ''type''
                      @ '' property'']
              else [])
           @ (if \<not> has_description
              then [''Schema '' @ quoted schema_name @ '': Missing '' @ quoted ''description''
                      @ '' (recommended)'']
              else [])
           @ object_warnings)))))"

definition validate_schemas :: "pyval \<Rightarrow> string list result" where
  "validate_schemas spec =
     bnd (py_get spec ''components'' (PDict [])) (\<lambda>components.
     bnd (py_get components ''schemas'' (PDict [])) (\<lambda>schemas.
     bnd (py_items schemas) (\<lambda>items.
     bnd (for_each check_schema items) (\<lambda>warnings.
     Inr ([] @ concat warnings)))))"

subsection \<open>\<^verbatim>\<open>validate_security\<close>\<close>

text \<open>The chain of tests on \<^verbatim>\<open>scheme.get('type')\<close>.\<close>

definition check_scheme_fields :: "string \<Rightarrow> pyval \<Rightarrow> pyval \<Rightarrow> string list result" where
  "check_scheme_fields scheme_name scheme scheme_type =
     (if scheme_type = PStr ''http''
      then bnd (py_in ''scheme'' scheme) (\<lambda>has_scheme.
           Inr (if \<not> has_scheme
                then [''Security scheme '' @ quoted scheme_name
                        @ '': HTTP type requires '' @ quoted ''scheme'']
                else []))
      else if scheme_type = PStr ''apiKey''
      then bnd (py_in ''name'' scheme) (\<lambda>has_name.
           bnd (py_in ''in'' scheme) (\<lambda>has_in.
           Inr ((if \<not> has_name
                 then [''Security scheme '' @ quoted scheme_name
                         @ '': apiKey type requires '' @ quoted ''name'']
                 else [])
              @ (if \<not> has_in
                 then [''Security scheme '' @ quoted scheme_name
                         @ '': apiKey type requires '' @ quoted ''in'']
                 else []))))
      else if scheme_type = PStr ''oauth2''
      then bnd (py_in ''flows'' scheme) (\<lambda>has_flows.
           Inr (if \<not> has_flows
                then [''Security scheme '' @ quoted scheme_name
                        @ '': oauth2 type requires '' @ quoted ''flows'']
                else []))
      else Inr [])"

definition check_scheme :: "string \<times> pyval \<Rightarrow> string list result" where
  "check_scheme item =
     (case item of (scheme_name, scheme) \<Rightarrow>
        bnd (py_in ''type'' scheme) (\<lambda>has_type.
        bnd (py_get scheme ''type'' PNone) (\<lambda>scheme_type.
        bnd (check_scheme_fields scheme_name scheme scheme_type) (\<lambda>field_errors.
        Inr ((if \<not> has_type
              then [''Security scheme '' @ quoted scheme_name @ '': Missing '' @ quoted ''type'']
              else [])
           @ field_errors)))))"

definition validate_security :: "pyval \<Rightarrow> string list result" where
  "validate_security spec =
     bnd (py_get spec ''components'' (PDict [])) (\<lambda>components.
     bnd (py_get components ''securitySchemes'' (PDict [])) (\<lambda>security_schemes.
     bnd (py_items security_schemes) (\<lambda>items.
     bnd (for_each check_scheme items) (\<lambda>errors.
     Inr (concat errors
        @ (if \<not> truthy security_schemes
           then [''No security schemes defined (consider adding authentication)'']
           else []))))))"

subsection \<open>\<^verbatim>\<open>validate_examples\<close>\<close>

definition example_operations :: "string list" where
  "example_operations = [''get'', ''post'', ''put'', ''patch'', ''delete'']"

text \<open>
  The loop over the media types of a content mapping: one copy of the message for each
  media type object that has neither \<^verbatim>\<open>example\<close> nor \<^verbatim>\<open>examples\<close>.
\<close>

definition check_media_type :: "string \<Rightarrow> string \<times> pyval \<Rightarrow> string list result" where
  "check_media_type message item =
     (case item of (media_type, media_type_obj) \<Rightarrow>
        bnd (none_in [''example'', ''examples''] media_type_obj) (\<lambda>missing.
        Inr (if missing then [message] else [])))"

definition check_content :: "string \<Rightarrow> pyval \<Rightarrow> string list result" where
  "check_content message holder =
     bnd (py_get holder ''content'' (PDict [])) (\<lambda>content.
     bnd (py_items content) (\<lambda>items.
     bnd (for_each (check_media_type message) items) (\<lambda>warnings.
     Inr (concat warnings))))"

definition check_response :: "string \<Rightarrow> string \<Rightarrow> string \<times> pyval \<Rightarrow> string list result" where
  "check_response method path item =
     (case item of (status_code, response) \<Rightarrow>
        if prefix ''2'' status_code
        then check_content
               (upper method @ '' '' @ path @ '': Response '' @ status_code @ '' missing example'')
               response
        else Inr [])"

definition check_operation_examples :: "string \<Rightarrow> pyval \<Rightarrow> string \<Rightarrow> string list result" where
  "check_operation_examples path path_item method =
     bnd (py_in method path_item) (\<lambda>present.
     if \<not> present then Inr []
     else
       bnd (py_getitem path_item method) (\<lambda>operation.
       bnd (py_in ''requestBody'' operation) (\<lambda>has_body.
       bnd (if has_body
            then bnd (py_getitem operation ''requestBody'')
                   (check_content (upper method @ '' '' @ path @ '': Request body missing example''))
            else Inr []) (\<lambda>request_warnings.
       bnd (py_get operation ''responses'' (PDict [])) (\<lambda>responses.
       bnd (py_items responses) (\<lambda>items.
       bnd (for_each (check_response method path) items) (\<lambda>response_warnings.
       Inr (request_warnings @ concat response_warnings))))))))"

definition check_path_examples :: "string \<times> pyval \<Rightarrow> string list result" where
  "check_path_examples item =
     (case item of (path, path_item) \<Rightarrow>
        bnd (for_each (check_operation_examples path path_item) example_operations) (\<lambda>warnings.
        Inr (concat warnings)))"

definition validate_examples :: "pyval \<Rightarrow> string list result" where
  "validate_examples spec =
     bnd (py_get spec ''paths'' (PDict [])) (\<lambda>paths.
     bnd (py_items paths) (\<lambda>items.
     bnd (for_each check_path_examples items) (\<lambda>warnings.
     Inr (concat warnings))))"

subsection \<open>\<^verbatim>\<open>validate_best_practices\<close>\<close>

definition parameter_warnings :: "string \<Rightarrow> string list" where
  "parameter_warnings path =
     (if CHR ''{'' \<in> set path \<and> CHR ''}'' \<in> set path
      then concat (map (\<lambda>param.
             if upper param = param \<or> CHR ''_'' \<in> set param
             then [''Path '' @ quoted path @ '': Parameter '' @ quoted param
                     @ '' should use camelCase'']
             else []) (findall_params path))
      else [])"

definition trailing_slash_warnings :: "string \<Rightarrow> string list" where
  "trailing_slash_warnings path =
     (if suffix ''/'' path \<and> path \<noteq> ''/''
      then [''Path '' @ quoted path @ '': Avoid trailing slashes''] else [])"

definition verbs :: "string list" where
  "verbs = [''get'', ''create'', ''update'', ''delete'', ''fetch'', ''list'', ''add'', ''remove'']"

definition verb_message :: "string \<Rightarrow> string" where
  "verb_message path =
     ''Path '' @ quoted path @ '': Avoid verbs in path (use HTTP methods instead)''"

text \<open>The loop over the verbs: the membership test is on the list of path parts.\<close>

definition verb_warnings :: "string \<Rightarrow> string list" where
  "verb_warnings path =
     (let path_parts = py_split CHR ''/'' (lower path)
      in concat (map (\<lambda>verb. if verb \<in> set path_parts then [verb_message path] else []) verbs))"

definition check_path_conventions :: "string \<Rightarrow> string list" where
  "check_path_conventions path =
     parameter_warnings path @ trailing_slash_warnings path @ verb_warnings path"

definition validate_best_practices :: "pyval \<Rightarrow> string list result" where
  "validate_best_practices spec =
     bnd (py_in ''servers'' spec) (\<lambda>has_servers.
     bnd (py_in ''tags'' spec) (\<lambda>has_tags.
     bnd (py_get spec ''info'' (PDict [])) (\<lambda>info.
     bnd (py_in ''contact'' info) (\<lambda>has_contact.
     bnd (py_in ''license'' info) (\<lambda>has_license.
     bnd (py_get spec ''paths'' (PDict [])) (\<lambda>paths.
     bnd (py_keys paths) (\<lambda>keys.
     Inr ((if \<not> has_servers
           then [''No '' @ quoted ''servers'' @ '' defined (recommended to specify base URLs)'']
           else [])
        @ (if \<not> has_tags
           then [''No '' @ quoted ''tags'' @ '' defined (recommended for API organization)'']
           else [])
        @ (if \<not> has_contact
           then [''No contact information in '' @ quoted ''info'' @ '' (recommended)'']
           else [])
        @ (if \<not> has_license
           then [''No license information in '' @ quoted ''info'' @ '' (consider adding)'']
           else [])
        @ concat (map check_path_conventions keys)))))))))"

subsection \<open>The run: \<^verbatim>\<open>main\<close>, lines 250 to 274\<close>

text \<open>The four tests on the text of a message, one for each of the first four passes.\<close>

definition structure_is_error :: "string \<Rightarrow> bool" where
  "structure_is_error e \<longleftrightarrow> str_contains e ''Missing required'' \<or> str_contains e ''Unsupported''"

definition paths_is_error :: "string \<Rightarrow> bool" where
  "paths_is_error e \<longleftrightarrow> str_contains e ''Missing'' \<and> str_contains (lower e) ''required''"

definition schemas_is_error :: "string \<Rightarrow> bool" where
  "schemas_is_error e \<longleftrightarrow> str_contains (lower e) ''required''"

definition security_is_error :: "string \<Rightarrow> bool" where
  "security_is_error e \<longleftrightarrow> str_contains e ''Missing'' \<and> str_contains e ''requires''"

text \<open>
  The pair of statements that follows each of the first four passes, on the two
  accumulators: the messages that pass the test extend \<^verbatim>\<open>all_errors\<close>, and the
  messages that are not in \<^verbatim>\<open>all_errors\<close> as it then stands extend \<^verbatim>\<open>all_warnings\<close>.
\<close>

definition classify ::
  "(string \<Rightarrow> bool) \<Rightarrow> string list \<Rightarrow> string list \<times> string list \<Rightarrow> string list \<times> string list" where
  "classify is_error issues acc =
     (case acc of (all_errors, all_warnings) \<Rightarrow>
        (let all_errors = all_errors @ filter is_error issues
         in (all_errors, all_warnings @ filter (\<lambda>e. e \<notin> set all_errors) issues)))"

definition run_validations :: "pyval \<Rightarrow> (string list \<times> string list) result" where
  "run_validations spec =
     bnd (validate_structure spec) (\<lambda>structure_errors.
     (let acc1 = classify structure_is_error structure_errors ([], []) in
     bnd (validate_paths spec) (\<lambda>path_issues.
     (let acc2 = classify paths_is_error path_issues acc1 in
     bnd (validate_schemas spec) (\<lambda>schema_issues.
     (let acc3 = classify schemas_is_error schema_issues acc2 in
     bnd (validate_security spec) (\<lambda>security_issues.
     (let acc4 = classify security_is_error security_issues acc3 in
     bnd (validate_examples spec) (\<lambda>example_warnings.
     bnd (validate_best_practices spec) (\<lambda>best_practice_warnings.
     Inr (fst acc4, snd acc4 @ example_warnings @ best_practice_warnings)))))))))))"

subsection \<open>\<^verbatim>\<open>load_spec\<close> and \<^verbatim>\<open>main\<close>\<close>

text \<open>
  Reading and parsing a file is outside the script: \<open>json_load\<close> and \<open>yaml_load\<close>
  stand for opening the file at a path and parsing it, with \<open>Inl\<close> the text of the
  exception raised. The printing of \<^verbatim>\<open>main\<close> is left out; its result is how the
  process ends: \<^verbatim>\<open>sys.exit(1)\<close>, a normal return (status 0), or an exception that
  nothing catches, on which the interpreter prints a traceback and exits with status 1.
\<close>

definition load_spec ::
  "(string \<Rightarrow> string + pyval) \<Rightarrow> (string \<Rightarrow> string + pyval) \<Rightarrow> string \<Rightarrow> pyval \<times> string list" where
  "load_spec json_load yaml_load file_path =
     (case (if suffix ''.json'' file_path then json_load file_path else yaml_load file_path) of
        Inr spec \<Rightarrow> (spec, [])
      | Inl e \<Rightarrow> (PDict [], [''Failed to load spec: '' @ e]))"

datatype outcome = Exit nat | Uncaught py_error

definition main ::
  "(string \<Rightarrow> string + pyval) \<Rightarrow> (string \<Rightarrow> string + pyval) \<Rightarrow> string list \<Rightarrow> outcome" where
  "main json_load yaml_load argv =
     (if length argv < 2 then Exit 1
      else
        (case load_spec json_load yaml_load (argv ! 1) of (spec, load_errors) \<Rightarrow>
           if load_errors \<noteq> [] then Exit 1
           else
             (case run_validations spec of
                Inl e \<Rightarrow> Uncaught e
              | Inr (all_errors, all_warnings) \<Rightarrow>
                  if all_errors = [] \<and> all_warnings = [] then Exit 0
                  else if all_errors = [] then Exit 0
                  else Exit 1)))"

fun exit_status :: "outcome \<Rightarrow> nat" where
  "exit_status (Exit n) = n"
| "exit_status (Uncaught e) = 1"

subsection \<open>The run as a sequence of updates\<close>

text \<open>
  The same lines of \<^verbatim>\<open>main\<close>, statement by statement, on what the statements read
  and write: the object that \<^verbatim>\<open>spec\<close> refers to and the two accumulators. The state a
  run starts in is arbitrary; whatever an earlier run left in it is there. Lines 251
  and 252 assign the empty list to both accumulators, every pass is handed the document
  of the state, and no statement assigns to the document.
\<close>

record run_state =
  document :: pyval
  errors_so_far :: "string list"
  warnings_so_far :: "string list"

definition extend_findings :: "(string \<Rightarrow> bool) \<Rightarrow> string list \<Rightarrow> run_state \<Rightarrow> run_state" where
  "extend_findings is_error issues s =
     (case classify is_error issues (errors_so_far s, warnings_so_far s) of
        (all_errors, all_warnings) \<Rightarrow>
          s\<lparr>errors_so_far := all_errors, warnings_so_far := all_warnings\<rparr>)"

definition extend_warnings :: "string list \<Rightarrow> run_state \<Rightarrow> run_state" where
  "extend_warnings issues s = s\<lparr>warnings_so_far := warnings_so_far s @ issues\<rparr>"

definition run_engine :: "run_state \<Rightarrow> run_state result" where
  "run_engine s0 =
     (let s1 = s0\<lparr>errors_so_far := [], warnings_so_far := []\<rparr> in
     bnd (validate_structure (document s1)) (\<lambda>structure_errors.
     (let s2 = extend_findings structure_is_error structure_errors s1 in
     bnd (validate_paths (document s2)) (\<lambda>path_issues.
     (let s3 = extend_findings paths_is_error path_issues s2 in
     bnd (validate_schemas (document s3)) (\<lambda>schema_issues.
     (let s4 = extend_findings schemas_is_error schema_issues s3 in
     bnd (validate_security (document s4)) (\<lambda>security_issues.
     (let s5 = extend_findings security_is_error security_issues s4 in
     bnd (validate_examples (document s5)) (\<lambda>example_warnings.
     (let s6 = extend_warnings example_warnings s5 in
     bnd (validate_best_practices (document s6)) (\<lambda>best_practice_warnings.
     Inr (extend_warnings best_practice_warnings s6)))))))))))))"

subsection \<open>The documents of the examples\<close>

text \<open>A parser that succeeds with the given document, whatever the path.\<close>

definition loads :: "pyval \<Rightarrow> string \<Rightarrow> string + pyval" where
  "loads doc file_path = Inr doc"

text \<open>A parser that raises, whatever the path.\<close>

definition load_fails :: "string \<Rightarrow> string + pyval" where
  "load_fails file_path = Inl ''[Errno 2] No such file or directory''"

definition users_info :: pyval where
  "users_info = PDict [(''title'', PStr ''Users''), (''version'', PStr ''1.0'')]"

definition documented_get :: pyval where
  "documented_get =
     PDict [(''summary'', PStr ''List the users''),
            (''operationId'', PStr ''listUsers''),
            (''responses'', PDict [(''200'', PDict [(''description'', PStr ''OK'')])])]"

text \<open>
  \<^verbatim>\<open>paths: null\<close>: the structure pass reports the empty \<^verbatim>\<open>paths\<close>, and the path pass
  calls \<^verbatim>\<open>items\<close> on the null value.
\<close>

definition null_paths_doc :: pyval where
  "null_paths_doc =
     PDict [(''openapi'', PStr ''3.0.0''),
            (''info'', users_info),
            (''paths'', PNone)]"

text \<open>A document whose structure messages fall on both sides of the test of the run.\<close>

definition mixed_findings_doc :: pyval where
  "mixed_findings_doc = PDict [(''openapi'', PStr ''2.0''), (''paths'', PDict [])]"

text \<open>A \<^verbatim>\<open>get\<close> operation with no \<^verbatim>\<open>responses\<close>.\<close>

definition missing_responses_doc :: pyval where
  "missing_responses_doc =
     PDict [(''openapi'', PStr ''3.0.0''),
            (''info'', users_info),
            (''paths'', PDict [(''/users'',
               PDict [(''get'', PDict [(''summary'', PStr ''List the users''),
                                       (''operationId'', PStr ''listUsers'')])])])]"

text \<open>\<^verbatim>\<open>paths\<close> present and empty.\<close>

definition empty_paths_doc :: pyval where
  "empty_paths_doc =
     PDict [(''openapi'', PStr ''3.0.0''),
            (''info'', users_info),
            (''paths'', PDict [])]"

text \<open>Scenario C of the specification: an \<^verbatim>\<open>apiKey\<close> scheme with no \<^verbatim>\<open>name\<close> and no \<^verbatim>\<open>in\<close>.\<close>

definition api_key_doc :: pyval where
  "api_key_doc =
     PDict [(''openapi'', PStr ''3.0.0''),
            (''info'', users_info),
            (''paths'', PDict [(''/users'', PDict [(''get'', documented_get)])]),
            (''components'', PDict [(''securitySchemes'',
               PDict [(''myApiKey'', PDict [(''type'', PStr ''apiKey'')])])])]"

text \<open>A path key with no leading slash.\<close>

definition relative_path_doc :: pyval where
  "relative_path_doc =
     PDict [(''openapi'', PStr ''3.0.0''),
            (''info'', users_info),
            (''paths'', PDict [(''users'', PDict [(''get'', documented_get)])])]"

text \<open>An unquoted \<^verbatim>\<open>openapi: 3.0\<close>, which a YAML parser reads as a float.\<close>

definition float_version_doc :: pyval where
  "float_version_doc =
     PDict [(''openapi'', PFloat 3.0),
            (''info'', users_info),
            (''paths'', PDict [(''/users'', PDict [(''get'', documented_get)])])]"

text \<open>Scenario B of the specification: no errors, and warnings.\<close>

definition warnings_only_doc :: pyval where
  "warnings_only_doc =
     PDict [(''openapi'', PStr ''3.0.0''),
            (''info'', users_info),
            (''paths'', PDict [(''/users'',
               PDict [(''get'', PDict [(''responses'', PDict [(''200'', PDict [])])])])])]"

text \<open>
  Two states that hold that document, one with empty accumulators and one with what
  another run left behind, and the state in which a run on the document ends.
\<close>

definition fresh_state :: run_state where
  "fresh_state = \<lparr>document = warnings_only_doc, errors_so_far = [], warnings_so_far = []\<rparr>"

definition stale_state :: run_state where
  "stale_state =
     \<lparr>document = warnings_only_doc,
      errors_so_far = [''Unsupported OpenAPI version: 2.0''],
      warnings_so_far = [''No security schemes defined (consider adding authentication)'']\<rparr>"

definition finished_state :: run_state where
  "finished_state =
     \<lparr>document = warnings_only_doc,
      errors_so_far = [],
      warnings_so_far =
        [''GET /users: Missing '' @ quoted ''summary'' @ '' or '' @ quoted ''description'',
         ''GET /users: Missing '' @ quoted ''operationId'' @ '' (recommended)'',
         ''No security schemes defined (consider adding authentication)'',
         ''No '' @ quoted ''servers'' @ '' defined (recommended to specify base URLs)'',
         ''No '' @ quoted ''tags'' @ '' defined (recommended for API organization)'',
         ''No contact information in '' @ quoted ''info'' @ '' (recommended)'',
         ''No license information in '' @ quoted ''info'' @ '' (consider adding)'']\<rparr>"

text \<open>
  An operation whose request body and whose 200 response each have one media type with
  no example, under \<^verbatim>\<open>head\<close> and under \<^verbatim>\<open>post\<close>.
\<close>

definition example_free_operation :: pyval where
  "example_free_operation =
     PDict [(''requestBody'', PDict [(''content'', PDict [(''application/json'', PDict [])])]),
            (''responses'',
               PDict [(''200'', PDict [(''content'', PDict [(''application/json'', PDict [])])])])]"

definition head_examples_doc :: pyval where
  "head_examples_doc =
     PDict [(''openapi'', PStr ''3.0.0''),
            (''info'', users_info),
            (''paths'', PDict [(''/users'', PDict [(''head'', example_free_operation)])])]"

definition post_examples_doc :: pyval where
  "post_examples_doc =
     PDict [(''openapi'', PStr ''3.0.0''),
            (''info'', users_info),
            (''paths'', PDict [(''/users'', PDict [(''post'', example_free_operation)])])]"

section \<open>Properties\<close>

subsection \<open>Exceptions and loops\<close>

lemma bnd_Inl [simp]: "bnd (Inl e) f = Inl e"
  by (simp add: bnd_def)

lemma bnd_Inr [simp]: "bnd (Inr v) f = f v"
  by (simp add: bnd_def)

lemma bnd_eq_Inr: "bnd r f = Inr y \<longleftrightarrow> (\<exists>v. r = Inr v \<and> f v = Inr y)"
  by (cases r) simp_all

lemma for_each_eq_Inr:
  "for_each body xs = Inr ys \<longleftrightarrow> list_all2 (\<lambda>x y. body x = Inr y) xs ys"
proof (induction xs arbitrary: ys)
  case Nil
  show ?case by auto
next
  case (Cons x xs)
  show ?case
    by (cases ys) (auto simp: bnd_eq_Inr Cons.IH)
qed

lemma py_in_dict_key: "map_of d k = Some v \<Longrightarrow> py_in k (PDict d) = Inr True"
  by (auto dest!: map_of_SomeD intro: image_eqI [where x = "(k, v)"])

lemma py_getitem_Inr: "py_getitem spec k = Inr v \<Longrightarrow> \<exists>d. spec = PDict d \<and> map_of d k = Some v"
  by (cases spec) (auto split: option.splits)

subsection \<open>How the messages of each pass begin\<close>

lemma for_each_member:
  "for_each body xs = Inr ys \<Longrightarrow> y \<in> set ys \<Longrightarrow> \<exists>x \<in> set xs. body x = Inr y"
  unfolding for_each_eq_Inr
  by (induction xs ys rule: list_all2_induct) auto

lemma for_each_source:
  "for_each body xs = Inr ys \<Longrightarrow> x \<in> set xs \<Longrightarrow> \<exists>y \<in> set ys. body x = Inr y"
  unfolding for_each_eq_Inr
  by (induction xs ys rule: list_all2_induct) auto

lemma upper_operations_eval:
  "map upper operations = [''GET'', ''POST'', ''PUT'', ''PATCH'', ''DELETE'', ''OPTIONS'', ''HEAD'']"
  by code_simp

lemma upper_operations:
  assumes "method \<in> set operations" and "prefix (upper method @ '' '') e"
  shows "take 2 e \<in> {''GE'', ''PO'', ''PU'', ''PA'', ''DE'', ''OP'', ''HE''}"
proof -
  from assms(1) have "upper method \<in> set (map upper operations)"
    by simp
  then have "upper method \<in> {''GET'', ''POST'', ''PUT'', ''PATCH'', ''DELETE'', ''OPTIONS'', ''HEAD''}"
    unfolding upper_operations_eval by simp
  with assms(2) show ?thesis
    by (auto simp: prefix_def)
qed

lemma check_responses_messages:
  "check_responses method path operation = Inr es \<Longrightarrow> e \<in> set es \<Longrightarrow>
     prefix (upper method @ '' '') e"
  by (auto simp: check_responses_def bnd_eq_Inr split: if_splits)

lemma check_documentation_messages:
  "check_documentation method path operation = Inr ws \<Longrightarrow> e \<in> set ws \<Longrightarrow>
     prefix (upper method @ '' '') e"
  by (auto simp: check_documentation_def bnd_eq_Inr split: if_splits)

lemma check_operation_messages:
  assumes "check_operation path path_item method = Inr (es, ws)" and "e \<in> set es \<union> set ws"
  shows "prefix (upper method @ '' '') e"
  using assms
  by (auto simp: check_operation_def bnd_eq_Inr split: if_splits
      dest: check_responses_messages check_documentation_messages)

lemma check_path_Inr:
  assumes "check_path (path, path_item) = Inr (es, ws)"
  shows "\<exists>has_operation found.
           any_in operations path_item = Inr has_operation
         \<and> for_each (check_operation path path_item) operations = Inr found
         \<and> es = (if \<not> prefix ''/'' path
                 then [''Path '' @ quoted path @ '' must start with '' @ quoted ''/''] else [])
                @ concat (map fst found)
         \<and> ws = (if \<not> has_operation
                 then [''Path '' @ quoted path @ '' has no operations defined''] else [])
                @ concat (map snd found)"
  using assms unfolding check_path_def prod.case bnd_eq_Inr by blast

lemma check_path_tags:
  assumes "check_path item = Inr (es, ws)" and "e \<in> set es \<union> set ws"
  shows "take 2 e \<in> {''Pa'', ''GE'', ''PO'', ''PU'', ''PA'', ''DE'', ''OP'', ''HE''}"
proof -
  obtain path path_item where item: "item = (path, path_item)"
    by (cases item)
  from check_path_Inr [OF assms(1) [unfolded item]] obtain has_operation found where
    f: "for_each (check_operation path path_item) operations = Inr found"
    and es: "es = (if \<not> prefix ''/'' path
                 then [''Path '' @ quoted path @ '' must start with '' @ quoted ''/''] else [])
                @ concat (map fst found)"
    and ws: "ws = (if \<not> has_operation
                 then [''Path '' @ quoted path @ '' has no operations defined''] else [])
                @ concat (map snd found)"
    by blast
  from assms(2) consider "take 2 e = ''Pa''"
    | r where "r \<in> set found" and "e \<in> set (fst r) \<union> set (snd r)"
    unfolding es ws by (auto split: if_splits)
  then show ?thesis
  proof cases
    case 1
    then show ?thesis by simp
  next
    case 2
    from for_each_member [OF f 2(1)] obtain verb where
      m: "verb \<in> set operations" and c: "check_operation path path_item verb = Inr r"
      by auto
    from check_operation_messages [of path path_item verb "fst r" "snd r" e] c 2(2)
    have "prefix (upper verb @ '' '') e" by auto
    from upper_operations [OF m this] show ?thesis by auto
  qed
qed

lemma validate_paths_tags:
  assumes "validate_paths spec = Inr issues" and "e \<in> set issues"
  shows "take 2 e \<in> {''Pa'', ''GE'', ''PO'', ''PU'', ''PA'', ''DE'', ''OP'', ''HE''}"
proof -
  from assms(1) obtain items found where
    f: "for_each check_path items = Inr found"
    and i: "issues = concat (map fst found) @ concat (map snd found)"
    by (auto simp: validate_paths_def bnd_eq_Inr)
  from assms(2) i obtain r where r: "r \<in> set found" and e: "e \<in> set (fst r) \<union> set (snd r)"
    by auto
  from for_each_member [OF f r] obtain item where "check_path item = Inr r"
    by auto
  from check_path_tags [of item "fst r" "snd r" e] this e show ?thesis
    by simp
qed

subsection \<open>The structure check\<close>

lemma check_version_not_string: "\<forall>s. v \<noteq> PStr s \<Longrightarrow> check_version v = Inl AttributeError"
  by (cases v) (simp_all add: check_version_def)

lemma check_version_Inr:
  "check_version v = Inr es \<Longrightarrow>
     \<exists>s. v = PStr s
       \<and> es = (if \<not> prefix ''3.0'' s then [''Unsupported OpenAPI version: '' @ s] else [])"
  by (cases v) (simp_all add: check_version_def)

lemma check_openapi_field_messages:
  "check_openapi_field spec = Inr es \<Longrightarrow> e \<in> set es \<Longrightarrow>
     e = ''Missing required field: '' @ quoted ''openapi''
     \<or> (\<exists>d s. spec = PDict d \<and> map_of d ''openapi'' = Some (PStr s) \<and> \<not> prefix ''3.0'' s
            \<and> e = ''Unsupported OpenAPI version: '' @ s)"
  by (auto simp: check_openapi_field_def bnd_eq_Inr split: if_splits
      dest!: py_getitem_Inr check_version_Inr)

lemma check_info_field_messages:
  "check_info_field spec = Inr es \<Longrightarrow> e \<in> set es \<Longrightarrow> prefix ''Missing required field: '' e"
  by (auto simp: check_info_field_def bnd_eq_Inr split: if_splits)

lemma check_paths_field_messages:
  "check_paths_field spec = Inr es \<Longrightarrow> e \<in> set es \<Longrightarrow>
     e = ''Missing required field: '' @ quoted ''paths''
     \<or> e = quoted ''paths'' @ '' object is empty - at least one path is required''"
  by (auto simp: check_paths_field_def bnd_eq_Inr split: if_splits)

lemma validate_structure_Inr:
  "validate_structure spec = Inr errors \<longleftrightarrow>
     (\<exists>ve ie pe. check_openapi_field spec = Inr ve \<and> check_info_field spec = Inr ie
        \<and> check_paths_field spec = Inr pe \<and> errors = ve @ ie @ pe)"
  by (auto simp: validate_structure_def bnd_eq_Inr)

text \<open>
  C10. The structure check returns only when the \<^verbatim>\<open>openapi\<close> field, if present,
  is a string: on a dictionary whose \<^verbatim>\<open>openapi\<close> value is anything else (the float
  3.0 of an unquoted \<^verbatim>\<open>openapi: 3.0\<close>, say) the prefix test raises AttributeError
  and no list of findings is returned. So whenever the check reports an unsupported
  version, the document is a dictionary whose \<^verbatim>\<open>openapi\<close> value is the string
  reported, and that string does not start with \<^verbatim>\<open>3.0\<close>.
\<close>

theorem version_check_only_on_strings:
  "(map_of d ''openapi'' = Some v \<and> (\<forall>s. v \<noteq> PStr s)
      \<longrightarrow> validate_structure (PDict d) = Inl AttributeError)
   \<and> (validate_structure spec = Inr errors \<and> ''Unsupported OpenAPI version: '' @ x \<in> set errors
      \<longrightarrow> (\<exists>d'. spec = PDict d' \<and> map_of d' ''openapi'' = Some (PStr x) \<and> \<not> prefix ''3.0'' x))"
proof (intro conjI impI)
  assume "map_of d ''openapi'' = Some v \<and> (\<forall>s. v \<noteq> PStr s)"
  then show "validate_structure (PDict d) = Inl AttributeError"
    by (simp add: validate_structure_def check_openapi_field_def py_in_dict_key
        check_version_not_string del: py_in.simps)
next
  let ?m = "''Unsupported OpenAPI version: '' @ x"
  assume a: "validate_structure spec = Inr errors \<and> ?m \<in> set errors"
  then obtain ve ie pe where
    v: "check_openapi_field spec = Inr ve"
    and i: "check_info_field spec = Inr ie"
    and p: "check_paths_field spec = Inr pe"
    and e: "errors = ve @ ie @ pe"
    by (auto simp: validate_structure_Inr)
  have "?m \<notin> set ie"
    using check_info_field_messages [OF i, of ?m] by auto
  moreover have "?m \<notin> set pe"
    using check_paths_field_messages [OF p, of ?m] by (auto simp: quoted_def)
  ultimately have "?m \<in> set ve"
    using a e by auto
  from check_openapi_field_messages [OF v this]
  show "\<exists>d'. spec = PDict d' \<and> map_of d' ''openapi'' = Some (PStr x) \<and> \<not> prefix ''3.0'' x"
    by (auto simp: quoted_def)
qed

theorem version_check_only_on_strings_witness:
  "validate_structure (PDict [(''openapi'', PFloat 3.0)]) = Inl AttributeError
   \<and> validate_structure (PDict [(''openapi'', PStr ''2.0'')])
       = Inr [''Unsupported OpenAPI version: 2.0'',
              ''Missing required field: '' @ quoted ''info'',
              ''Missing required field: '' @ quoted ''paths'']
   \<and> \<not> prefix ''3.0'' ''2.0''"
proof -
  have run: "validate_structure (PDict [(''openapi'', PStr ''2.0'')])
       = Inr [''Unsupported OpenAPI version: 2.0'',
              ''Missing required field: '' @ quoted ''info'',
              ''Missing required field: '' @ quoted ''paths'']"
    by (simp add: validate_structure_def check_openapi_field_def check_info_field_def
        check_paths_field_def check_version_def)
  have float: "map_of [(''openapi'', PFloat 3.0)] ''openapi'' = Some (PFloat 3.0)
      \<and> (\<forall>s. PFloat 3.0 \<noteq> PStr s)"
    by simp
  have listed: "''Unsupported OpenAPI version: '' @ ''2.0''
      \<in> set [''Unsupported OpenAPI version: 2.0'',
              ''Missing required field: '' @ quoted ''info'',
              ''Missing required field: '' @ quoted ''paths'']"
    by simp
  from version_check_only_on_strings
         [of "[(''openapi'', PFloat 3.0)]" "PFloat 3.0"
             "PDict [(''openapi'', PStr ''2.0'')]" _ "''2.0''"]
       float run listed
  show ?thesis by auto
qed

subsection \<open>The classification of the messages\<close>

lemma validate_structure_tags:
  assumes "validate_structure spec = Inr errors" and "e \<in> set errors"
  shows "take 2 e \<in> {''Mi'', ''Un'', [CHR 0x27, CHR ''p'']}"
proof -
  from assms(1) obtain ve ie pe where
    v: "check_openapi_field spec = Inr ve"
    and i: "check_info_field spec = Inr ie"
    and p: "check_paths_field spec = Inr pe"
    and e: "errors = ve @ ie @ pe"
    by (auto simp: validate_structure_Inr)
  from assms(2) e consider "e \<in> set ve" | "e \<in> set ie" | "e \<in> set pe"
    by auto
  then show ?thesis
  proof cases
    case 1
    from check_openapi_field_messages [OF v 1] show ?thesis by auto
  next
    case 2
    from check_info_field_messages [OF i 2] show ?thesis by (auto simp: prefix_def)
  next
    case 3
    from check_paths_field_messages [OF p 3] show ?thesis by (auto simp: quoted_def)
  qed
qed

lemma check_object_schema_messages:
  "check_object_schema schema_name schema = Inr ws \<Longrightarrow> e \<in> set ws \<Longrightarrow> take 2 e = ''Sc''"
  by (auto simp: check_object_schema_def bnd_eq_Inr split: if_splits)

lemma check_schema_Inr:
  assumes "check_schema (schema_name, schema) = Inr ws"
  shows "\<exists>untyped has_description object_warnings.
           check_object_schema schema_name schema = Inr object_warnings
         \<and> ws = (if untyped
                 then [''Schema '' @ quoted schema_name @ '': Missing '' @ quoted ''type''
                         @ '' property'']
                 else [])
              @ (if \<not> has_description
                 then [''Schema '' @ quoted schema_name @ '': Missing '' @ quoted ''description''
                         @ '' (recommended)'']
                 else [])
              @ object_warnings"
  using assms unfolding check_schema_def prod.case bnd_eq_Inr by blast

lemma check_schema_tags:
  assumes "check_schema item = Inr ws" and "e \<in> set ws"
  shows "take 2 e = ''Sc''"
proof -
  obtain schema_name schema where item: "item = (schema_name, schema)"
    by (cases item)
  from check_schema_Inr [OF assms(1) [unfolded item]] obtain untyped has_description object_warnings
    where o: "check_object_schema schema_name schema = Inr object_warnings"
    and ws: "ws = (if untyped
                 then [''Schema '' @ quoted schema_name @ '': Missing '' @ quoted ''type''
                         @ '' property'']
                 else [])
              @ (if \<not> has_description
                 then [''Schema '' @ quoted schema_name @ '': Missing '' @ quoted ''description''
                         @ '' (recommended)'']
                 else [])
              @ object_warnings"
    by blast
  from assms(2) consider "take 2 e = ''Sc''" | "e \<in> set object_warnings"
    unfolding ws by (auto split: if_splits)
  then show ?thesis
    using check_object_schema_messages [OF o] by cases auto
qed

lemma validate_schemas_tags:
  assumes "validate_schemas spec = Inr issues" and "e \<in> set issues"
  shows "take 2 e = ''Sc''"
proof -
  from assms(1) obtain items found where
    f: "for_each check_schema items = Inr found" and i: "issues = concat found"
    by (auto simp: validate_schemas_def bnd_eq_Inr)
  from assms(2) i obtain r where r: "r \<in> set found" and e: "e \<in> set r"
    by auto
  from for_each_member [OF f r] obtain item where "check_schema item = Inr r"
    by auto
  then show ?thesis using e by (rule check_schema_tags)
qed

lemma check_scheme_fields_messages:
  "check_scheme_fields scheme_name scheme scheme_type = Inr es \<Longrightarrow> e \<in> set es \<Longrightarrow>
     take 2 e = ''Se''"
  by (auto simp: check_scheme_fields_def bnd_eq_Inr split: if_splits)

lemma check_scheme_tags:
  assumes "check_scheme item = Inr es" and "e \<in> set es"
  shows "take 2 e = ''Se''"
  using assms
  by (cases item)
    (auto simp: check_scheme_def bnd_eq_Inr split: if_splits dest: check_scheme_fields_messages)

lemma validate_security_Inr:
  assumes "validate_security spec = Inr issues"
  shows "\<exists>security_schemes items found.
           for_each check_scheme items = Inr found
         \<and> issues = concat found
              @ (if \<not> truthy security_schemes
                 then [''No security schemes defined (consider adding authentication)'']
                 else [])"
  using assms unfolding validate_security_def bnd_eq_Inr by blast

lemma validate_security_tags:
  assumes "validate_security spec = Inr issues" and "e \<in> set issues"
  shows "take 2 e \<in> {''Se'', ''No''}"
proof -
  from validate_security_Inr [OF assms(1)] obtain security_schemes items found where
    f: "for_each check_scheme items = Inr found"
    and i: "issues = concat found
              @ (if \<not> truthy security_schemes
                 then [''No security schemes defined (consider adding authentication)'']
                 else [])"
    by blast
  from assms(2) consider "take 2 e = ''No''" | r where "r \<in> set found" and "e \<in> set r"
    unfolding i by (auto split: if_splits)
  then show ?thesis
  proof cases
    case 1
    then show ?thesis by simp
  next
    case 2
    from for_each_member [OF f 2(1)] obtain item where "check_scheme item = Inr r"
      by auto
    from check_scheme_tags [OF this 2(2)] show ?thesis by simp
  qed
qed

text \<open>
  When no message that fails the test is among the errors gathered so far, the pair of
  statements after a pass splits the messages of the pass by the test alone.
\<close>

lemma classify_by_test:
  assumes "\<forall>e \<in> set issues. \<not> is_error e \<longrightarrow> e \<notin> set all_errors"
  shows "classify is_error issues (all_errors, all_warnings) =
           (all_errors @ filter is_error issues,
            all_warnings @ filter (\<lambda>e. \<not> is_error e) issues)"
proof -
  have "filter (\<lambda>e. e \<notin> set (all_errors @ filter is_error issues)) issues
          = filter (\<lambda>e. \<not> is_error e) issues"
    using assms by (intro filter_cong) auto
  then show ?thesis
    by (simp add: classify_def Let_def)
qed

text \<open>
  The run is the six passes in sequence, the messages of each of the first four split
  by the test of that pass alone: the test on the errors gathered so far never changes
  the outcome, because the messages of different passes begin differently.
\<close>

lemma run_validations_pipeline:
  "run_validations spec =
     bnd (validate_structure spec) (\<lambda>structure_errors.
     bnd (validate_paths spec) (\<lambda>path_issues.
     bnd (validate_schemas spec) (\<lambda>schema_issues.
     bnd (validate_security spec) (\<lambda>security_issues.
     bnd (validate_examples spec) (\<lambda>example_warnings.
     bnd (validate_best_practices spec) (\<lambda>best_practice_warnings.
     Inr (filter structure_is_error structure_errors
            @ filter paths_is_error path_issues
            @ filter schemas_is_error schema_issues
            @ filter security_is_error security_issues,
          filter (\<lambda>e. \<not> structure_is_error e) structure_errors
            @ filter (\<lambda>e. \<not> paths_is_error e) path_issues
            @ filter (\<lambda>e. \<not> schemas_is_error e) schema_issues
            @ filter (\<lambda>e. \<not> security_is_error e) security_issues
            @ example_warnings
            @ best_practice_warnings)))))))"
proof (cases "validate_structure spec")
  case (Inl e)
  then show ?thesis by (simp add: run_validations_def)
next
  case st: (Inr structure_errors)
  show ?thesis
  proof (cases "validate_paths spec")
    case (Inl e)
    then show ?thesis by (simp add: run_validations_def st Let_def)
  next
    case pa: (Inr path_issues)
    show ?thesis
    proof (cases "validate_schemas spec")
      case (Inl e)
      then show ?thesis by (simp add: run_validations_def st pa Let_def)
    next
      case sc: (Inr schema_issues)
      show ?thesis
      proof (cases "validate_security spec")
        case (Inl e)
        then show ?thesis by (simp add: run_validations_def st pa sc Let_def)
      next
        case se: (Inr security_issues)
        have c1: "classify structure_is_error structure_errors ([], [])
            = (filter structure_is_error structure_errors,
               filter (\<lambda>e. \<not> structure_is_error e) structure_errors)"
          using classify_by_test [of structure_errors structure_is_error "[]" "[]"] by simp
        have t1: "\<forall>e \<in> set (filter structure_is_error structure_errors).
                    take 2 e \<in> {''Mi'', ''Un'', [CHR 0x27, CHR ''p'']}"
          using validate_structure_tags [OF st] by simp
        have t2: "\<forall>e \<in> set path_issues.
                    take 2 e \<in> {''Pa'', ''GE'', ''PO'', ''PU'', ''PA'', ''DE'', ''OP'', ''HE''}"
          using validate_paths_tags [OF pa] by simp
        have t3: "\<forall>e \<in> set schema_issues. take 2 e = ''Sc''"
          using validate_schemas_tags [OF sc] by simp
        have t4: "\<forall>e \<in> set security_issues. take 2 e \<in> {''Se'', ''No''}"
          using validate_security_tags [OF se] by simp
        have d2: "\<forall>e \<in> set path_issues. \<not> paths_is_error e
                    \<longrightarrow> e \<notin> set (filter structure_is_error structure_errors)"
          using t1 t2 by fastforce
        have d3: "\<forall>e \<in> set schema_issues. \<not> schemas_is_error e
                    \<longrightarrow> e \<notin> set (filter structure_is_error structure_errors
                                   @ filter paths_is_error path_issues)"
          using t1 t2 t3 by fastforce
        have d4: "\<forall>e \<in> set security_issues. \<not> security_is_error e
                    \<longrightarrow> e \<notin> set (filter structure_is_error structure_errors
                                   @ filter paths_is_error path_issues
                                   @ filter schemas_is_error schema_issues)"
          using t1 t2 t3 t4 by fastforce
        show ?thesis
          by (simp add: run_validations_def st pa sc se Let_def c1
              classify_by_test [OF d2] classify_by_test [OF d3] classify_by_test [OF d4])
      qed
    qed
  qed
qed

text \<open>
  C4 as stated fails: on a document with \<^verbatim>\<open>paths: null\<close> the structure pass returns
  a finding, the path pass raises, and the run ends with no output at all.
\<close>

theorem dropped_findings_counterexample:
  "validate_structure null_paths_doc
     = Inr [quoted ''paths'' @ '' object is empty - at least one path is required'']
   \<and> run_validations null_paths_doc = Inl AttributeError"
  by code_simp

text \<open>
  C4, amended. The run returns exactly when all six passes return. Then whether a
  message of one of the first four passes is an error is decided by the test of that
  pass on the text of the message, and by nothing gathered from other messages or other
  passes; and every message of every pass is in exactly one of the two lists of the
  run, as often as the pass emitted it and in the order of the passes. When a pass
  raises, the run has no output, and the findings of the passes before it are lost.
\<close>

theorem classification_amended:
  "run_validations spec = Inr (all_errors, all_warnings) \<longleftrightarrow>
     (\<exists>structure_errors path_issues schema_issues security_issues example_warnings
         best_practice_warnings.
        validate_structure spec = Inr structure_errors
      \<and> validate_paths spec = Inr path_issues
      \<and> validate_schemas spec = Inr schema_issues
      \<and> validate_security spec = Inr security_issues
      \<and> validate_examples spec = Inr example_warnings
      \<and> validate_best_practices spec = Inr best_practice_warnings
      \<and> all_errors =
            filter structure_is_error structure_errors
              @ filter paths_is_error path_issues
              @ filter schemas_is_error schema_issues
              @ filter security_is_error security_issues
      \<and> all_warnings =
            filter (\<lambda>e. \<not> structure_is_error e) structure_errors
              @ filter (\<lambda>e. \<not> paths_is_error e) path_issues
              @ filter (\<lambda>e. \<not> schemas_is_error e) schema_issues
              @ filter (\<lambda>e. \<not> security_is_error e) security_issues
              @ example_warnings
              @ best_practice_warnings)"
  unfolding run_validations_pipeline bnd_eq_Inr by auto

theorem classification_amended_witness:
  "validate_structure mixed_findings_doc
     = Inr [''Unsupported OpenAPI version: 2.0'',
            ''Missing required field: '' @ quoted ''info'',
            quoted ''paths'' @ '' object is empty - at least one path is required'']
   \<and> validate_paths mixed_findings_doc = Inr []
   \<and> validate_schemas mixed_findings_doc = Inr []
   \<and> validate_security mixed_findings_doc
       = Inr [''No security schemes defined (consider adding authentication)'']
   \<and> validate_examples mixed_findings_doc = Inr []
   \<and> validate_best_practices mixed_findings_doc
       = Inr [''No '' @ quoted ''servers'' @ '' defined (recommended to specify base URLs)'',
              ''No '' @ quoted ''tags'' @ '' defined (recommended for API organization)'',
              ''No contact information in '' @ quoted ''info'' @ '' (recommended)'',
              ''No license information in '' @ quoted ''info'' @ '' (consider adding)'']
   \<and> run_validations mixed_findings_doc
       = Inr ([''Unsupported OpenAPI version: 2.0'',
               ''Missing required field: '' @ quoted ''info''],
              [quoted ''paths'' @ '' object is empty - at least one path is required'',
               ''No security schemes defined (consider adding authentication)'',
               ''No '' @ quoted ''servers'' @ '' defined (recommended to specify base URLs)'',
               ''No '' @ quoted ''tags'' @ '' defined (recommended for API organization)'',
               ''No contact information in '' @ quoted ''info'' @ '' (recommended)'',
               ''No license information in '' @ quoted ''info'' @ '' (consider adding)''])"
proof -
  let ?st = "[''Unsupported OpenAPI version: 2.0'',
              ''Missing required field: '' @ quoted ''info'',
              quoted ''paths'' @ '' object is empty - at least one path is required'']"
  let ?se = "[''No security schemes defined (consider adding authentication)'']"
  let ?bp = "[''No '' @ quoted ''servers'' @ '' defined (recommended to specify base URLs)'',
              ''No '' @ quoted ''tags'' @ '' defined (recommended for API organization)'',
              ''No contact information in '' @ quoted ''info'' @ '' (recommended)'',
              ''No license information in '' @ quoted ''info'' @ '' (consider adding)'']"
  have st: "validate_structure mixed_findings_doc = Inr ?st"
    by code_simp
  have pa: "validate_paths mixed_findings_doc = Inr []"
    by code_simp
  have sc: "validate_schemas mixed_findings_doc = Inr []"
    by code_simp
  have se: "validate_security mixed_findings_doc = Inr ?se"
    by code_simp
  have ex: "validate_examples mixed_findings_doc = Inr []"
    by code_simp
  have bp: "validate_best_practices mixed_findings_doc = Inr ?bp"
    by code_simp
  have errors: "filter structure_is_error ?st @ filter paths_is_error []
          @ filter schemas_is_error [] @ filter security_is_error ?se
      = [''Unsupported OpenAPI version: 2.0'', ''Missing required field: '' @ quoted ''info'']"
    by code_simp
  have warnings: "filter (\<lambda>e. \<not> structure_is_error e) ?st
          @ filter (\<lambda>e. \<not> paths_is_error e) []
          @ filter (\<lambda>e. \<not> schemas_is_error e) []
          @ filter (\<lambda>e. \<not> security_is_error e) ?se @ [] @ ?bp
      = (quoted ''paths'' @ '' object is empty - at least one path is required'') # ?se @ ?bp"
    by code_simp
  have "run_validations mixed_findings_doc
      = Inr (filter structure_is_error ?st @ filter paths_is_error []
               @ filter schemas_is_error [] @ filter security_is_error ?se,
             filter (\<lambda>e. \<not> structure_is_error e) ?st
               @ filter (\<lambda>e. \<not> paths_is_error e) []
               @ filter (\<lambda>e. \<not> schemas_is_error e) []
               @ filter (\<lambda>e. \<not> security_is_error e) ?se @ [] @ ?bp)"
    using classification_amended [of mixed_findings_doc] st pa sc se ex bp by blast
  then have "run_validations mixed_findings_doc
      = Inr ([''Unsupported OpenAPI version: 2.0'', ''Missing required field: '' @ quoted ''info''],
             (quoted ''paths'' @ '' object is empty - at least one path is required'') # ?se @ ?bp)"
    unfolding errors warnings .
  with st pa sc se ex bp show ?thesis
    by simp
qed

subsection \<open>Messages of the passes that the run does not count as errors\<close>

text \<open>
  C1. An operation without \<^verbatim>\<open>responses\<close> should give one error naming the method and
  the path. The path pass does append the message to its errors, but the test of the run
  on path messages asks for both \<^verbatim>\<open>Missing\<close> and \<^verbatim>\<open>required\<close> in the text, and
  the message has no \<^verbatim>\<open>required\<close>: on this document the run has no error, and the
  message is among the warnings. The second equation is the loop body of the pass on
  the path: the message is in its first list, the errors.
\<close>

theorem missing_responses_is_a_warning:
  "run_validations missing_responses_doc =
     Inr ([],
          [''GET /users: Missing '' @ quoted ''responses'',
           ''No security schemes defined (consider adding authentication)'',
           ''No '' @ quoted ''servers'' @ '' defined (recommended to specify base URLs)'',
           ''No '' @ quoted ''tags'' @ '' defined (recommended for API organization)'',
           ''No contact information in '' @ quoted ''info'' @ '' (recommended)'',
           ''No license information in '' @ quoted ''info'' @ '' (consider adding)''])
   \<and> check_path (''/users'',
         PDict [(''get'', PDict [(''summary'', PStr ''List the users''),
                                 (''operationId'', PStr ''listUsers'')])])
       = Inr ([''GET /users: Missing '' @ quoted ''responses''], [])"
  by code_simp

text \<open>
  C2. An empty \<^verbatim>\<open>paths\<close> should make the outcome Invalid. The structure pass reports
  it, but the text of the message has neither \<^verbatim>\<open>Missing required\<close> nor
  \<^verbatim>\<open>Unsupported\<close>: the run has no error, and the process exits with status 0.
\<close>

theorem empty_paths_is_a_warning:
  "run_validations empty_paths_doc =
     Inr ([],
          [quoted ''paths'' @ '' object is empty - at least one path is required'',
           ''No security schemes defined (consider adding authentication)'',
           ''No '' @ quoted ''servers'' @ '' defined (recommended to specify base URLs)'',
           ''No '' @ quoted ''tags'' @ '' defined (recommended for API organization)'',
           ''No contact information in '' @ quoted ''info'' @ '' (recommended)'',
           ''No license information in '' @ quoted ''info'' @ '' (consider adding)''])
   \<and> main (loads empty_paths_doc) (loads empty_paths_doc) [''validate_openapi.py'', ''api.yaml'']
       = Exit 0"
  by code_simp

text \<open>
  C3. An \<^verbatim>\<open>apiKey\<close> scheme with neither \<^verbatim>\<open>name\<close> nor \<^verbatim>\<open>in\<close> should give two
  errors. The security pass reports both, but the test of the run on security messages
  asks for both \<^verbatim>\<open>Missing\<close> and \<^verbatim>\<open>requires\<close>, and the two messages have no
  \<^verbatim>\<open>Missing\<close>: the run has no error, and both messages are among the warnings.
\<close>

theorem api_key_fields_are_warnings:
  "run_validations api_key_doc =
     Inr ([],
          [''Security scheme '' @ quoted ''myApiKey'' @ '': apiKey type requires '' @ quoted ''name'',
           ''Security scheme '' @ quoted ''myApiKey'' @ '': apiKey type requires '' @ quoted ''in'',
           ''No '' @ quoted ''servers'' @ '' defined (recommended to specify base URLs)'',
           ''No '' @ quoted ''tags'' @ '' defined (recommended for API organization)'',
           ''No contact information in '' @ quoted ''info'' @ '' (recommended)'',
           ''No license information in '' @ quoted ''info'' @ '' (consider adding)''])"
  by code_simp

text \<open>
  C6. A path key that does not start with a slash should give an error. The path pass
  appends the message to its errors (the second equation), but the message has no
  \<^verbatim>\<open>Missing\<close>: the run has no error, and the message is among the warnings.
\<close>

theorem relative_path_is_a_warning:
  "run_validations relative_path_doc =
     Inr ([],
          [''Path '' @ quoted ''users'' @ '' must start with '' @ quoted ''/'',
           ''No security schemes defined (consider adding authentication)'',
           ''No '' @ quoted ''servers'' @ '' defined (recommended to specify base URLs)'',
           ''No '' @ quoted ''tags'' @ '' defined (recommended for API organization)'',
           ''No contact information in '' @ quoted ''info'' @ '' (recommended)'',
           ''No license information in '' @ quoted ''info'' @ '' (consider adding)''])
   \<and> check_path (''users'', PDict [(''get'', documented_get)])
       = Inr ([''Path '' @ quoted ''users'' @ '' must start with '' @ quoted ''/''], [])"
  by code_simp

subsection \<open>The exit status\<close>

text \<open>
  C5 as stated fails: on a document that loads and on which a pass raises, no finding
  is produced and the status is 1.
\<close>

theorem exit_status_counterexample:
  "load_spec (loads float_version_doc) (loads float_version_doc) ''api.yaml''
     = (float_version_doc, [])
   \<and> run_validations float_version_doc = Inl AttributeError
   \<and> exit_status (main (loads float_version_doc) (loads float_version_doc)
                    [''validate_openapi.py'', ''api.yaml'']) = 1"
  by code_simp

text \<open>
  C5, amended. When a file is named on the command line, the exit status is 1 when the
  document fails to load, when a check pass raises an exception, and when the run
  produces at least one error; it is 0 in every other case, that of a run with
  warnings only included.
\<close>

theorem exit_status_amended:
  assumes "2 \<le> length argv"
  shows "exit_status (main json_load yaml_load argv) =
     (case (if suffix ''.json'' (argv ! 1) then json_load (argv ! 1) else yaml_load (argv ! 1)) of
        Inl failure \<Rightarrow> 1
      | Inr spec \<Rightarrow>
          (case run_validations spec of
             Inl exception \<Rightarrow> 1
           | Inr (all_errors, all_warnings) \<Rightarrow> if all_errors \<noteq> [] then 1 else 0))"
proof (cases "if suffix ''.json'' (argv ! 1) then json_load (argv ! 1) else yaml_load (argv ! 1)")
  case (Inl failure)
  with assms show ?thesis
    by (auto simp: main_def load_spec_def split: if_splits)
next
  case (Inr spec)
  with assms show ?thesis
    by (cases "run_validations spec") (auto simp: main_def load_spec_def split: if_splits)
qed

theorem exit_status_amended_witness:
  "2 \<le> length [''validate_openapi.py'', ''api.yaml'']
   \<and> exit_status (main (loads warnings_only_doc) (loads warnings_only_doc)
                    [''validate_openapi.py'', ''api.yaml'']) = 0
   \<and> exit_status (main (loads api_key_doc) load_fails
                    [''validate_openapi.py'', ''api.yaml'']) = 1"
proof -
  have args: "2 \<le> length [''validate_openapi.py'', ''api.yaml'']"
    by simp
  have run: "fst (projr (run_validations warnings_only_doc)) = []
             \<and> isl (run_validations warnings_only_doc) = False"
    by code_simp
  then obtain all_warnings where "run_validations warnings_only_doc = Inr ([], all_warnings)"
    by (cases "run_validations warnings_only_doc") auto
  with exit_status_amended [OF args, of "loads warnings_only_doc" "loads warnings_only_doc"]
       exit_status_amended [OF args, of "loads api_key_doc" load_fails]
  show ?thesis
    by (simp add: loads_def load_fails_def suffix_to_prefix)
qed

subsection \<open>Two runs\<close>

lemma classify_from_state:
  "extend_findings is_error issues s =
     s\<lparr>errors_so_far := fst (classify is_error issues (errors_so_far s, warnings_so_far s)),
       warnings_so_far := snd (classify is_error issues (errors_so_far s, warnings_so_far s))\<rparr>"
  by (simp add: extend_findings_def split: prod.splits)

text \<open>
  A run from any state ends in that state with the accumulators replaced by the
  findings of the passes on the document of the state: what the accumulators held
  before is overwritten, and the document is the one the run started with.
\<close>

lemma run_engine_findings:
  "run_engine s =
     bnd (run_validations (document s)) (\<lambda>findings.
     Inr (s\<lparr>errors_so_far := fst findings, warnings_so_far := snd findings\<rparr>))"
proof (cases "validate_structure (document s)")
  case (Inl e)
  then show ?thesis by (simp add: run_engine_def run_validations_def Let_def)
next
  case st: (Inr structure_errors)
  show ?thesis
  proof (cases "validate_paths (document s)")
    case (Inl e)
    then show ?thesis
      by (simp add: run_engine_def run_validations_def Let_def st classify_from_state)
  next
    case pa: (Inr path_issues)
    show ?thesis
    proof (cases "validate_schemas (document s)")
      case (Inl e)
      then show ?thesis
        by (simp add: run_engine_def run_validations_def Let_def st pa classify_from_state)
    next
      case sc: (Inr schema_issues)
      show ?thesis
      proof (cases "validate_security (document s)")
        case (Inl e)
        then show ?thesis
          by (simp add: run_engine_def run_validations_def Let_def st pa sc classify_from_state)
      next
        case se: (Inr security_issues)
        show ?thesis
        proof (cases "validate_examples (document s)")
          case (Inl e)
          then show ?thesis
            by (simp add: run_engine_def run_validations_def Let_def st pa sc se
                classify_from_state extend_warnings_def)
        next
          case ex: (Inr example_warnings)
          show ?thesis
          proof (cases "validate_best_practices (document s)")
            case (Inl e)
            then show ?thesis
              by (simp add: run_engine_def run_validations_def Let_def st pa sc se ex
                  classify_from_state extend_warnings_def)
          next
            case (Inr best_practice_warnings)
            then show ?thesis
              by (simp add: run_engine_def run_validations_def Let_def st pa sc se ex
                  classify_from_state extend_warnings_def)
          qed
        qed
      qed
    qed
  qed
qed

text \<open>
  C9. Two runs of the engine on the same parsed document give the same ordered lists of
  errors and warnings, whatever state each run starts in: either both return, with the
  same two lists and each with its document as it was, or both raise the same
  exception. In particular a second run started in the state the first run ended in
  ends in that same state.
\<close>

theorem two_runs_same_findings:
  "(document t = document s \<longrightarrow>
      (case (run_engine s, run_engine t) of
         (Inr s', Inr t') \<Rightarrow>
             errors_so_far s' = errors_so_far t' \<and> warnings_so_far s' = warnings_so_far t'
           \<and> document s' = document s \<and> document t' = document t
       | (Inl e, Inl e') \<Rightarrow> e = e'
       | (Inl e, Inr t') \<Rightarrow> False
       | (Inr s', Inl e') \<Rightarrow> False))
   \<and> (run_engine s = Inr after \<longrightarrow> document after = document s \<and> run_engine after = Inr after)"
proof (intro conjI impI)
  assume "document t = document s"
  then show "case (run_engine s, run_engine t) of
         (Inr s', Inr t') \<Rightarrow>
             errors_so_far s' = errors_so_far t' \<and> warnings_so_far s' = warnings_so_far t'
           \<and> document s' = document s \<and> document t' = document t
       | (Inl e, Inl e') \<Rightarrow> e = e'
       | (Inl e, Inr t') \<Rightarrow> False
       | (Inr s', Inl e') \<Rightarrow> False"
    by (cases "run_validations (document s)") (simp_all add: run_engine_findings)
next
  assume r: "run_engine s = Inr after"
  then obtain findings where
    f: "run_validations (document s) = Inr findings"
    and a: "after = s\<lparr>errors_so_far := fst findings, warnings_so_far := snd findings\<rparr>"
    by (auto simp: run_engine_findings bnd_eq_Inr)
  from a show "document after = document s"
    by simp
  from a f show "run_engine after = Inr after"
    by (simp add: run_engine_findings)
qed

theorem two_runs_same_findings_witness:
  "document stale_state = document fresh_state
   \<and> run_engine fresh_state = Inr finished_state
   \<and> run_engine stale_state = Inr finished_state
   \<and> run_engine finished_state = Inr finished_state"
proof -
  have same: "document stale_state = document fresh_state"
    by (simp add: stale_state_def fresh_state_def)
  have also_same: "document stale_state = document finished_state"
    by (simp add: stale_state_def finished_state_def)
  have first: "run_engine fresh_state = Inr finished_state"
    by code_simp
  note sequel = two_runs_same_findings
    [of fresh_state fresh_state finished_state, THEN conjunct2, THEN mp, OF first]
  then have again: "run_engine finished_state = Inr finished_state"
    by (rule conjunct2)
  note both = two_runs_same_findings
    [of stale_state finished_state finished_state, THEN conjunct1, THEN mp, OF also_same]
  have "run_engine stale_state = Inr finished_state"
  proof (cases "run_engine stale_state")
    case (Inl e)
    with both again show ?thesis by simp
  next
    case (Inr t')
    with both again have "errors_so_far t' = errors_so_far finished_state"
      and "warnings_so_far t' = warnings_so_far finished_state"
      and "document t' = document finished_state"
      by (simp_all add: also_same)
    then have "t' = finished_state"
      by (intro run_state.equality) simp_all
    with Inr show ?thesis by simp
  qed
  with same first again show ?thesis
    by (intro conjI)
qed

subsection \<open>Verbs in paths\<close>

lemma lower_char_slash: "lower_char c = CHR ''/'' \<longleftrightarrow> c = CHR ''/''"
  by (auto simp: lower_char_def ascii_uppercase_def ascii_lowercase_def split: if_splits)

lemma py_split_not_Nil: "py_split sep s \<noteq> []"
  by (induction s) (auto split: list.splits)

lemma py_split_lower: "py_split CHR ''/'' (lower s) = map lower (py_split CHR ''/'' s)"
proof (induction s)
  case Nil
  show ?case by (simp add: lower_def)
next
  case (Cons c s)
  then have ih: "py_split CHR ''/'' (map lower_char s) = map (map lower_char) (py_split CHR ''/'' s)"
    by (simp add: lower_def)
  show ?case
  proof (cases "py_split CHR ''/'' s")
    case Nil
    then show ?thesis by (simp add: py_split_not_Nil)
  next
    case (Cons part parts)
    then show ?thesis
      using ih by (simp add: lower_def lower_char_slash)
  qed
qed

lemma concat_singletons:
  "concat (map (\<lambda>x. if P x then [m] else []) xs) = replicate (length (filter P xs)) m"
  by (induction xs) simp_all

text \<open>C7 as stated fails: a path with two verbs among its segments gets the warning twice.\<close>

theorem verb_warnings_counterexample:
  "verb_warnings ''/get/create'' = [verb_message ''/get/create'', verb_message ''/get/create'']"
  by code_simp

text \<open>
  C7, amended. For a path key, the verb rule emits one copy of the warning for each
  verb of the vocabulary that is equal, letter case apart, to a whole segment of the
  path between slashes: one warning when the segments match one verb, the same
  warning several times when they match several verbs, and no warning when no segment
  is a verb.
\<close>

theorem verb_warnings_amended:
  "verb_warnings path =
     replicate
       (length (filter (\<lambda>verb. \<exists>segment \<in> set (py_split CHR ''/'' path). lower segment = verb) verbs))
       (verb_message path)
   \<and> (verb_warnings path = []
        \<longleftrightarrow> (\<forall>segment \<in> set (py_split CHR ''/'' path). lower segment \<notin> set verbs))"
proof -
  have test: "(\<lambda>verb. verb \<in> set (py_split CHR ''/'' (lower path)))
      = (\<lambda>verb. \<exists>segment \<in> set (py_split CHR ''/'' path). lower segment = verb)"
    by (auto simp: py_split_lower)
  have eq: "verb_warnings path =
     replicate
       (length (filter (\<lambda>verb. \<exists>segment \<in> set (py_split CHR ''/'' path). lower segment = verb) verbs))
       (verb_message path)"
    by (simp add: verb_warnings_def Let_def concat_singletons test)
  have "verb_warnings path = []
        \<longleftrightarrow> (\<forall>segment \<in> set (py_split CHR ''/'' path). lower segment \<notin> set verbs)"
    unfolding eq by (auto simp: filter_empty_conv)
  with eq show ?thesis by blast
qed

theorem verb_warnings_amended_witness:
  "verb_warnings ''/users/LIST'' = [verb_message ''/users/LIST'']
   \<and> verb_warnings ''/getUsers'' = []"
proof -
  have one: "replicate
       (length (filter (\<lambda>verb. \<exists>segment \<in> set (py_split CHR ''/'' ''/users/LIST'').
                                  lower segment = verb) verbs))
       (verb_message ''/users/LIST'') = [verb_message ''/users/LIST'']"
    by code_simp
  have none: "\<forall>segment \<in> set (py_split CHR ''/'' ''/getUsers''). lower segment \<notin> set verbs"
    by code_simp
  from verb_warnings_amended [of "''/users/LIST''"] one
  have first: "verb_warnings ''/users/LIST'' = [verb_message ''/users/LIST'']"
    by (elim conjE) (rule trans)
  from verb_warnings_amended [of "''/getUsers''"] none
  have "verb_warnings ''/getUsers'' = []"
    by blast
  with first show ?thesis
    by (intro conjI)
qed

subsection \<open>Examples in request and response bodies\<close>

lemma count_list_concat_member:
  "y \<in> set ys \<Longrightarrow> count_list y m \<le> count_list (concat ys) m"
  by (induction ys) auto

lemma check_media_type_count:
  assumes "for_each (check_media_type message) items = Inr found"
  shows "count_list (concat found) message
           = length (filter (\<lambda>item. none_in [''example'', ''examples''] (snd item) = Inr True) items)"
  using assms unfolding for_each_eq_Inr
proof (induction items found rule: list_all2_induct)
  case Nil
  show ?case by simp
next
  case (Cons item items ws found)
  obtain media_type media_type_obj where item: "item = (media_type, media_type_obj)"
    by (cases item)
  from Cons.hyps(1) obtain missing where
    m: "none_in [''example'', ''examples''] media_type_obj = Inr missing"
    and ws: "ws = (if missing then [message] else [])"
    unfolding check_media_type_def item prod.case bnd_eq_Inr by auto
  show ?case
    using Cons.IH by (cases missing) (simp_all add: item m ws del: none_in.simps)
qed

lemma check_content_count:
  assumes "check_content message holder = Inr ws"
    and "py_get holder ''content'' (PDict []) = Inr (PDict content)"
  shows "count_list ws message
           = length (filter (\<lambda>item. none_in [''example'', ''examples''] (snd item) = Inr True) content)"
proof -
  from assms obtain found where
    "for_each (check_media_type message) content = Inr found" and "ws = concat found"
    unfolding check_content_def bnd_eq_Inr by auto
  then show ?thesis
    by (simp add: check_media_type_count)
qed

lemma check_operation_examples_Inr:
  assumes "check_operation_examples path path_item verb = Inr ws"
    and "py_getitem path_item verb = Inr operation"
  shows "\<exists>request_warnings responses items response_warnings.
           (case py_getitem operation ''requestBody'' of
              Inr body \<Rightarrow>
                check_content (upper verb @ '' '' @ path @ '': Request body missing example'') body
                  = Inr request_warnings
            | Inl e \<Rightarrow> True)
         \<and> py_get operation ''responses'' (PDict []) = Inr responses
         \<and> py_items responses = Inr items
         \<and> for_each (check_response verb path) items = Inr response_warnings
         \<and> ws = request_warnings @ concat response_warnings"
proof -
  from assms(2) obtain d where d: "path_item = PDict d" "map_of d verb = Some operation"
    by (auto dest: py_getitem_Inr)
  then have present: "py_in verb path_item = Inr True"
    by (simp add: py_in_dict_key del: py_in.simps)
  from assms(1) obtain has_body request_warnings responses items response_warnings where
    b: "py_in ''requestBody'' operation = Inr has_body"
    and r: "(if has_body
            then bnd (py_getitem operation ''requestBody'')
                   (check_content (upper verb @ '' '' @ path @ '': Request body missing example''))
            else Inr []) = Inr request_warnings"
    and rest: "py_get operation ''responses'' (PDict []) = Inr responses"
      "py_items responses = Inr items"
      "for_each (check_response verb path) items = Inr response_warnings"
      "ws = request_warnings @ concat response_warnings"
    by (simp add: check_operation_examples_def present assms(2) bnd_eq_Inr del: py_in.simps)
      blast
  have "case py_getitem operation ''requestBody'' of
          Inr body \<Rightarrow>
            check_content (upper verb @ '' '' @ path @ '': Request body missing example'') body
              = Inr request_warnings
        | Inl e \<Rightarrow> True"
  proof (cases "py_getitem operation ''requestBody''")
    case (Inl e)
    then show ?thesis by simp
  next
    case (Inr body)
    then obtain od where "operation = PDict od" "map_of od ''requestBody'' = Some body"
      by (auto dest: py_getitem_Inr)
    then have "py_in ''requestBody'' operation = Inr True"
      by (simp add: py_in_dict_key del: py_in.simps)
    with b have "has_body" by simp
    with r Inr show ?thesis by simp
  qed
  with rest show ?thesis by blast
qed

lemma check_operation_examples_request:
  assumes "check_operation_examples path path_item verb = Inr ws"
    and "py_getitem path_item verb = Inr operation"
    and "py_getitem operation ''requestBody'' = Inr body"
    and "py_get body ''content'' (PDict []) = Inr (PDict content)"
  shows "length (filter (\<lambda>item. none_in [''example'', ''examples''] (snd item) = Inr True) content)
           \<le> count_list ws (upper verb @ '' '' @ path @ '': Request body missing example'')"
proof -
  from check_operation_examples_Inr [OF assms(1,2)] assms(3)
  obtain request_warnings response_warnings where
    c: "check_content (upper verb @ '' '' @ path @ '': Request body missing example'') body
          = Inr request_warnings"
    and ws: "ws = request_warnings @ concat response_warnings"
    by auto
  from check_content_count [OF c assms(4)] show ?thesis
    unfolding ws by simp
qed

lemma check_operation_examples_response:
  assumes "check_operation_examples path path_item verb = Inr ws"
    and "py_getitem path_item verb = Inr operation"
    and "py_get operation ''responses'' (PDict []) = Inr (PDict responses)"
    and "(status_code, response) \<in> set responses"
    and "prefix ''2'' status_code"
    and "py_get response ''content'' (PDict []) = Inr (PDict content)"
  shows "length (filter (\<lambda>item. none_in [''example'', ''examples''] (snd item) = Inr True) content)
           \<le> count_list ws
                (upper verb @ '' '' @ path @ '': Response '' @ status_code @ '' missing example'')"
proof -
  let ?m = "upper verb @ '' '' @ path @ '': Response '' @ status_code @ '' missing example''"
  from check_operation_examples_Inr [OF assms(1,2)] assms(3)
  obtain request_warnings response_warnings where
    f: "for_each (check_response verb path) responses = Inr response_warnings"
    and ws: "ws = request_warnings @ concat response_warnings"
    by auto
  from for_each_source [OF f assms(4)] obtain y where
    y: "y \<in> set response_warnings" and "check_response verb path (status_code, response) = Inr y"
    by auto
  with assms(5) have "check_content ?m response = Inr y"
    by (simp add: check_response_def)
  from check_content_count [OF this assms(6)]
  have "length (filter (\<lambda>item. none_in [''example'', ''examples''] (snd item) = Inr True) content)
          = count_list y ?m"
    by simp
  also have "\<dots> \<le> count_list (concat response_warnings) ?m"
    using y by (rule count_list_concat_member)
  also have "\<dots> \<le> count_list ws ?m"
    unfolding ws by simp
  finally show ?thesis .
qed

lemma validate_examples_operation:
  assumes "validate_examples spec = Inr warnings"
    and "py_get spec ''paths'' (PDict []) = Inr (PDict paths)"
    and "(path, path_item) \<in> set paths"
    and "verb \<in> set example_operations"
  shows "\<exists>ws. check_operation_examples path path_item verb = Inr ws
            \<and> (\<forall>m. count_list ws m \<le> count_list warnings m)"
proof -
  from assms(1,2) obtain found where
    f: "for_each check_path_examples paths = Inr found" and w: "warnings = concat found"
    unfolding validate_examples_def bnd_eq_Inr by auto
  from for_each_source [OF f assms(3)] obtain pw where
    pw: "pw \<in> set found" and "check_path_examples (path, path_item) = Inr pw"
    by auto
  then obtain ofound where
    o: "for_each (check_operation_examples path path_item) example_operations = Inr ofound"
    and p: "pw = concat ofound"
    unfolding check_path_examples_def prod.case bnd_eq_Inr by auto
  from for_each_source [OF o assms(4)] obtain ws where
    ws: "ws \<in> set ofound" and c: "check_operation_examples path path_item verb = Inr ws"
    by auto
  have "count_list ws m \<le> count_list warnings m" for m
  proof -
    have "count_list ws m \<le> count_list pw m"
      unfolding p using ws by (rule count_list_concat_member)
    also have "\<dots> \<le> count_list warnings m"
      unfolding w using pw by (rule count_list_concat_member)
    finally show ?thesis .
  qed
  with c show ?thesis by blast
qed

text \<open>
  C8 as stated fails: the example pass looks at the operations under \<^verbatim>\<open>get\<close>,
  \<^verbatim>\<open>post\<close>, \<^verbatim>\<open>put\<close>, \<^verbatim>\<open>patch\<close> and \<^verbatim>\<open>delete\<close> only. The operation that
  gets two warnings under \<^verbatim>\<open>post\<close> gets none under \<^verbatim>\<open>head\<close>.
\<close>

theorem example_warnings_counterexample:
  "validate_examples head_examples_doc = Inr []
   \<and> validate_examples post_examples_doc
       = Inr [''POST /users: Request body missing example'',
              ''POST /users: Response 200 missing example'']"
  by code_simp

text \<open>
  C8, amended. Take a run of the example pass that returns, and an operation under
  \<^verbatim>\<open>get\<close>, \<^verbatim>\<open>post\<close>, \<^verbatim>\<open>put\<close>, \<^verbatim>\<open>patch\<close> or \<^verbatim>\<open>delete\<close> of a path. If the
  operation has a \<^verbatim>\<open>requestBody\<close>, the request body warning of the method and the
  path is emitted at least once for each media type entry of its content mapping that
  has neither \<^verbatim>\<open>example\<close> nor \<^verbatim>\<open>examples\<close>. For each response whose status code
  starts with \<^verbatim>\<open>2\<close>, the response warning of the method, the path and the status code
  is emitted at least once for each such media type entry of the content mapping of the
  response.
\<close>

theorem example_warnings_amended:
  assumes "validate_examples spec = Inr warnings"
    and "py_get spec ''paths'' (PDict []) = Inr (PDict paths)"
    and "(path, path_item) \<in> set paths"
    and "verb \<in> set example_operations"
    and "py_getitem path_item verb = Inr operation"
  shows "(\<forall>body content.
            py_getitem operation ''requestBody'' = Inr body
          \<and> py_get body ''content'' (PDict []) = Inr (PDict content)
          \<longrightarrow> length (filter (\<lambda>item. none_in [''example'', ''examples''] (snd item) = Inr True)
                         content)
                \<le> count_list warnings
                     (upper verb @ '' '' @ path @ '': Request body missing example''))
       \<and> (\<forall>responses status_code response content.
            py_get operation ''responses'' (PDict []) = Inr (PDict responses)
          \<and> (status_code, response) \<in> set responses
          \<and> prefix ''2'' status_code
          \<and> py_get response ''content'' (PDict []) = Inr (PDict content)
          \<longrightarrow> length (filter (\<lambda>item. none_in [''example'', ''examples''] (snd item) = Inr True)
                         content)
                \<le> count_list warnings
                     (upper verb @ '' '' @ path @ '': Response '' @ status_code
                        @ '' missing example''))"
proof -
  from validate_examples_operation [OF assms(1-4)] obtain ws where
    c: "check_operation_examples path path_item verb = Inr ws"
    and le: "\<And>m. count_list ws m \<le> count_list warnings m"
    by blast
  show ?thesis
  proof (intro conjI allI impI)
    fix body content
    assume "py_getitem operation ''requestBody'' = Inr body
          \<and> py_get body ''content'' (PDict []) = Inr (PDict content)"
    then have "length (filter (\<lambda>item. none_in [''example'', ''examples''] (snd item) = Inr True)
                         content)
                \<le> count_list ws (upper verb @ '' '' @ path @ '': Request body missing example'')"
      using check_operation_examples_request [OF c assms(5)] by blast
    also note le
    finally show "length (filter (\<lambda>item. none_in [''example'', ''examples''] (snd item) = Inr True)
                         content)
                \<le> count_list warnings
                     (upper verb @ '' '' @ path @ '': Request body missing example'')" .
  next
    fix responses status_code response content
    assume "py_get operation ''responses'' (PDict []) = Inr (PDict responses)
          \<and> (status_code, response) \<in> set responses
          \<and> prefix ''2'' status_code
          \<and> py_get response ''content'' (PDict []) = Inr (PDict content)"
    then have "length (filter (\<lambda>item. none_in [''example'', ''examples''] (snd item) = Inr True)
                         content)
                \<le> count_list ws
                     (upper verb @ '' '' @ path @ '': Response '' @ status_code
                        @ '' missing example'')"
      using check_operation_examples_response [OF c assms(5)] by blast
    also note le
    finally show "length (filter (\<lambda>item. none_in [''example'', ''examples''] (snd item) = Inr True)
                         content)
                \<le> count_list warnings
                     (upper verb @ '' '' @ path @ '': Response '' @ status_code
                        @ '' missing example'')" .
  qed
qed

theorem example_warnings_amended_witness:
  "validate_examples post_examples_doc
     = Inr [''POST /users: Request body missing example'',
            ''POST /users: Response 200 missing example'']
   \<and> py_get post_examples_doc ''paths'' (PDict [])
       = Inr (PDict [(''/users'', PDict [(''post'', example_free_operation)])])
   \<and> ''post'' \<in> set example_operations
   \<and> py_getitem (PDict [(''post'', example_free_operation)]) ''post'' = Inr example_free_operation
   \<and> py_getitem example_free_operation ''requestBody''
       = Inr (PDict [(''content'', PDict [(''application/json'', PDict [])])])
   \<and> py_get example_free_operation ''responses'' (PDict [])
       = Inr (PDict [(''200'', PDict [(''content'', PDict [(''application/json'', PDict [])])])])
   \<and> 1 \<le> count_list [''POST /users: Request body missing example'',
                       ''POST /users: Response 200 missing example'']
              (upper ''post'' @ '' '' @ ''/users'' @ '': Request body missing example'')
   \<and> 1 \<le> count_list [''POST /users: Request body missing example'',
                       ''POST /users: Response 200 missing example'']
              (upper ''post'' @ '' '' @ ''/users'' @ '': Response '' @ ''200''
                 @ '' missing example'')"
proof -
  let ?content = "[(''application/json'', PDict [])]"
  let ?body = "PDict [(''content'', PDict ?content)]"
  let ?responses = "[(''200'', ?body)]"
  let ?item = "PDict [(''post'', example_free_operation)]"
  let ?warnings = "[''POST /users: Request body missing example'',
                    ''POST /users: Response 200 missing example'']"
  have run: "validate_examples post_examples_doc = Inr ?warnings"
    by code_simp
  have paths: "py_get post_examples_doc ''paths'' (PDict []) = Inr (PDict [(''/users'', ?item)])"
    by (simp add: post_examples_doc_def)
  have path: "(''/users'', ?item) \<in> set [(''/users'', ?item)]"
    by simp
  have verb: "''post'' \<in> set example_operations"
    by (simp add: example_operations_def)
  have operation: "py_getitem ?item ''post'' = Inr example_free_operation"
    by simp
  have body: "py_getitem example_free_operation ''requestBody'' = Inr ?body"
    by (simp add: example_free_operation_def)
  have responses: "py_get example_free_operation ''responses'' (PDict []) = Inr (PDict ?responses)"
    by (simp add: example_free_operation_def)
  have content: "py_get ?body ''content'' (PDict []) = Inr (PDict ?content)"
    by simp
  have missing: "length (filter (\<lambda>item. none_in [''example'', ''examples''] (snd item) = Inr True)
                           ?content) = 1"
    by simp
  note amended = example_warnings_amended [OF run paths path verb operation]
  from amended body content missing
  have request: "1 \<le> count_list ?warnings
                       (upper ''post'' @ '' '' @ ''/users'' @ '': Request body missing example'')"
    by metis
  have "(''200'', ?body) \<in> set ?responses \<and> prefix ''2'' ''200''"
    by simp
  with amended responses content missing
  have response: "1 \<le> count_list ?warnings
                       (upper ''post'' @ '' '' @ ''/users'' @ '': Response '' @ ''200''
                          @ '' missing example'')"
    by metis
  from run paths verb operation body responses request response show ?thesis
    by (intro conjI)
qed

end
